theory Spec2Isabelle
  imports Complex_Main "HOL-Library.AList" "HOL-Library.Multiset"
begin

section \<open>CountFrequencyEncoder: data model\<close>

text \<open>
  A shallow embedding of \<^verbatim>\<open>feature_engine/encoding/count_frequency.py\<close>.

  A dataframe cell is a Python object: a missing value (\<^verbatim>\<open>NaN\<close>), a string, or a number.
  Counts are Python integers and frequencies are float64 values; both are numbers here,
  carried as rationals. The float64 division of \<^verbatim>\<open>value_counts(normalize=True)\<close> is the
  exact quotient followed by a rounding function \<open>rnd\<close>, which every definition that
  divides takes as a parameter.
\<close>

datatype cell = NaN | Str string | Num rat

text \<open>
  A pandas Series with its dtype. \<open>Object\<close> and \<open>Categorical\<close> are the two dtypes the class
  docstring calls categorical ("type 'object' or 'categorical'"); \<open>Numeric\<close> columns are
  encoded only with \<^verbatim>\<open>ignore_format=True\<close>. A \<open>Categorical\<close> carries its values and its
  declared categories; pandas keeps the categories unique and non-null, and reads a
  value outside them as missing.
\<close>

datatype series = Object "cell list" | Numeric "cell list" | Categorical "cell list" "cell list"

type_synonym dataframe = "(string \<times> series) list"

text \<open>
  The exceptions. The Python code raises \<^verbatim>\<open>ValueError\<close> in \<^verbatim>\<open>__init__\<close>, which is the
  \<open>ConfigError\<close> of the error taxonomy; \<open>KeyError\<close> and \<open>AttributeError\<close> are the Python
  built-ins for a missing dictionary key or column and for a missing attribute;
  \<open>SelectorError\<close> is the error of the variable selector, which the taxonomy leaves
  unnamed.
\<close>

datatype error =
    ConfigError
  | SelectorError
  | KeyError cell
  | AttributeError
  | ConsistencyError
  | SchemaError
  | UnseenCategoryError "string list"
  | StateError

text \<open>
  A Python \<^verbatim>\<open>dict\<close> or \<^verbatim>\<open>collections.defaultdict\<close>: the items in insertion order, and
  the value the default factory returns (\<open>None\<close> for a plain \<^verbatim>\<open>dict\<close>;
  \<^verbatim>\<open>defaultdict(lambda: 0)\<close> has \<open>Some (Num 0)\<close>).
\<close>

record pydict =
  entries :: "(cell \<times> cell) list"
  default_factory :: "cell option"

text \<open>
  The encoder object. The first four fields are set by \<^verbatim>\<open>__init__\<close>; the others are the
  attributes \<^verbatim>\<open>variables_\<close>, \<^verbatim>\<open>feature_names_in_\<close>, \<^verbatim>\<open>n_features_in_\<close> and
  \<^verbatim>\<open>encoder_dict_\<close> that \<^verbatim>\<open>fit\<close> assigns, with \<open>None\<close> for an attribute the object does
  not have. An identifier cannot end in an underscore here, so the trailing underscore
  is written as a prime.
\<close>

record encoder =
  encoding_method :: string
  variables :: "string list option"
  ignore_format :: bool
  errors :: string
  variables' :: "string list option"
  feature_names_in' :: "string list option"
  n_features_in' :: "nat option"
  encoder_dict' :: "(string \<times> pydict) list option"

type_synonym selector = "dataframe \<Rightarrow> string list option \<Rightarrow> bool \<Rightarrow> string list option"

section \<open>pandas and the standard library\<close>

text \<open>The distinct elements of a list, in order of first appearance.\<close>

fun unique :: "'a list \<Rightarrow> 'a list" where
  "unique [] = []"
| "unique (x # xs) = x # unique (filter (\<lambda>y. y \<noteq> x) xs)"

definition category_index :: "cell list \<Rightarrow> cell list" where
  "category_index cats = unique (filter (\<lambda>c. c \<noteq> NaN) cats)"

fun series_values :: "series \<Rightarrow> cell list" where
  "series_values (Object cs) = cs"
| "series_values (Numeric cs) = cs"
| "series_values (Categorical cs cats) =
     map (\<lambda>c. if c \<in> set (category_index cats) then c else NaN) cs"

text \<open>
  The index of \<^verbatim>\<open>value_counts()\<close>: every declared category of a categorical Series,
  observed or not, and otherwise the distinct non-missing values.
\<close>

fun index_keys :: "series \<Rightarrow> cell list" where
  "index_keys (Categorical cs cats) = category_index cats"
| "index_keys s = unique (filter (\<lambda>c. c \<noteq> NaN) (series_values s))"

text \<open>
  int64 divided by int64 in pandas: a float64, \<^verbatim>\<open>NaN\<close> for \<^verbatim>\<open>0 / 0\<close>. A count never
  exceeds the total it is divided by, so a zero divisor only meets a zero dividend.
\<close>

definition float_div :: "(rat \<Rightarrow> rat) \<Rightarrow> nat \<Rightarrow> nat \<Rightarrow> cell" where
  "float_div rnd a b = (if b = 0 then NaN else Num (rnd (of_nat a / of_nat b)))"

text \<open>
  \<^verbatim>\<open>Series.value_counts(normalize=..., sort=True, ascending=False, dropna=True)\<close>:
  missing values are dropped, each key is counted, the counts are sorted in descending
  order (keys with equal counts keep their order here; no property below depends on
  it), and with \<^verbatim>\<open>normalize=True\<close> each count is divided by the sum of the counts.
\<close>

definition value_counts :: "(rat \<Rightarrow> rat) \<Rightarrow> bool \<Rightarrow> series \<Rightarrow> (cell \<times> cell) list" where
  "value_counts rnd normalize_arg s =
     (let vals = filter (\<lambda>c. c \<noteq> NaN) (series_values s);
          counts = sort_key (\<lambda>(k, n). - int n) (map (\<lambda>k. (k, count_list vals k)) (index_keys s));
          total = sum_list (map snd counts)
      in map (\<lambda>(k, n). (k, if normalize_arg then float_div rnd n total else Num (of_nat n))) counts)"

text \<open>
  \<^verbatim>\<open>Series.to_dict(into)\<close> with an initialised mapping \<^verbatim>\<open>into\<close>: a new mapping of the
  same kind (and, for a \<^verbatim>\<open>defaultdict\<close>, the same default factory) is filled with the
  items of the Series, one assignment after the other.
\<close>

definition to_dict :: "cell option \<Rightarrow> (cell \<times> cell) list \<Rightarrow> pydict" where
  "to_dict dct_init kvs =
     \<lparr>entries = foldl (\<lambda>d (k, v). AList.update k v d) [] kvs, default_factory = dct_init\<rparr>"


section \<open>Collaborators outside the source file\<close>

text \<open>
  Modelled from the spec: \<^verbatim>\<open>check_parameter_errors\<close> (in
  \<^verbatim>\<open>feature_engine/encoding/_helper_functions.py\<close>, not among the sources) is the
  Parameter Validator for the error policy: "rejects invalid configuration values
  (encoding method, error policy) before any learning happens", with a \<open>ConfigError\<close>.
\<close>

definition check_parameter_errors :: "string \<Rightarrow> string list \<Rightarrow> error option" where
  "check_parameter_errors errors_arg accepted_values =
     (if errors_arg \<in> set accepted_values then None else Some ConfigError)"

text \<open>
  Modelled from the spec: \<^verbatim>\<open>CategoricalInitMixin.__init__\<close> (in
  \<^verbatim>\<open>feature_engine/encoding/base_encoder.py\<close>, not among the sources) stores
  \<open>variables\<close>, "optional explicit list of variable identifiers", and \<open>ignore_format\<close>,
  a boolean. The attributes of the Fitted State are absent from a new object.
\<close>

definition mixin_init :: "string list option \<Rightarrow> bool \<Rightarrow> encoder" where
  "mixin_init variables_arg ignore_format_arg =
     \<lparr>encoding_method = [], variables = variables_arg, ignore_format = ignore_format_arg,
      errors = [], variables' = None, feature_names_in' = None, n_features_in' = None,
      encoder_dict' = None\<rparr>"

text \<open>
  Modelled from the spec: \<^verbatim>\<open>check_X\<close> (in \<^verbatim>\<open>feature_engine/dataframe_checks.py\<close>, not
  among the sources). The input dataset is "a tabular structure (rows x named columns)
  supplied by the caller" and the builder names no error for it: a dataframe is handed
  back as it is.
\<close>

definition check_X :: "dataframe \<Rightarrow> error + dataframe" where
  "check_X X = Inr X"

text \<open>
  Modelled from the spec: \<^verbatim>\<open>_fit\<close> (a method of \<^verbatim>\<open>CategoricalMethodsMixin\<close>, not among
  the sources) is the call of the Variable Selector,
  "select(dataset, explicit_variables, ignore_format) -> ordered list of variable
  identifiers", whose result becomes \<^verbatim>\<open>variables_\<close>; the selector may raise. The
  selector itself is the parameter \<open>sel\<close>, with \<open>None\<close> when it raises.
\<close>

definition mixin_fit :: "selector \<Rightarrow> encoder \<Rightarrow> dataframe \<Rightarrow> encoder \<times> error option" where
  "mixin_fit sel self X =
     (case sel X (variables self) (ignore_format self) of
        None \<Rightarrow> (self, Some SelectorError)
      | Some vs \<Rightarrow> (self\<lparr>variables' := Some vs\<rparr>, None))"

text \<open>
  Modelled from the spec: a Variable Selector to run the encoder with. It "determines
  which columns are eligible for encoding (categorical-typed, or all columns if a
  format-override flag is set)", takes the explicit list when there is one, and raises
  "if the resolved list is empty"; an explicit variable that is not an eligible column
  is refused as well.
\<close>

fun is_categorical :: "series \<Rightarrow> bool" where
  "is_categorical (Numeric cs) = False"
| "is_categorical s = True"

definition select_variables :: selector where
  "select_variables X explicit_variables ignore_format_arg =
     (let eligible = map fst (filter (\<lambda>(name, s). ignore_format_arg \<or> is_categorical s) X);
          resolved = (case explicit_variables of None \<Rightarrow> eligible | Some vs \<Rightarrow> vs)
      in if resolved = [] \<or> \<not> list_all (\<lambda>v. v \<in> set eligible) resolved then None
         else Some resolved)"

text \<open>
  Modelled from the spec: \<^verbatim>\<open>_get_feature_names_in\<close> (a method of
  \<^verbatim>\<open>CategoricalMethodsMixin\<close>, not among the sources) records
  "identifiers and count of all columns present in the training dataset".
\<close>

definition get_feature_names_in :: "encoder \<Rightarrow> dataframe \<Rightarrow> encoder" where
  "get_feature_names_in self X =
     self\<lparr>feature_names_in' := Some (map fst X), n_features_in' := Some (length X)\<rparr>"

text \<open>
  Modelled from the spec: \<^verbatim>\<open>_check_encoding_dictionary\<close> (a method of
  \<^verbatim>\<open>CategoricalMethodsMixin\<close>, not among the sources) is the Map Consistency Checker:
  "If unseen_policy == SUBSTITUTE_ZERO, scans every learned per-category statistic
  across every variable; if any equals exactly 0, raises a ConsistencyError.
  No effect when policy is IGNORE or RAISE." It takes no argument: it reads the
  policy and the maps from the object. Of this error the spec says "raised at the end
  of fit, fatal -- no Fitted State is published", and of the state that
  "encoder_dict_ is populated only after a successful fit": \<^verbatim>\<open>fit\<close> has assigned the
  attributes before the call, so the method, when it raises, leaves the object without
  them.
\<close>

definition has_zero_statistic :: "(string \<times> pydict) list \<Rightarrow> bool" where
  "has_zero_statistic d = list_ex (\<lambda>(var, m). list_ex (\<lambda>(k, s). s = Num 0) (entries m)) d"

definition without_fitted_state :: "encoder \<Rightarrow> encoder" where
  "without_fitted_state self =
     self\<lparr>variables' := None, feature_names_in' := None, n_features_in' := None,
          encoder_dict' := None\<rparr>"

definition check_encoding_dictionary :: "encoder \<Rightarrow> encoder \<times> error option" where
  "check_encoding_dictionary self =
     (if errors self = ''encode'' then
        (case encoder_dict' self of
           None \<Rightarrow> (self, None)
         | Some d \<Rightarrow>
             if has_zero_statistic d then (without_fitted_state self, Some ConsistencyError)
             else (self, None))
      else (self, None))"

section \<open>The encoder\<close>

text \<open>
  \<^verbatim>\<open>CountFrequencyEncoder.__init__\<close>: the constructed object, or the exception.
\<close>

definition init :: "string \<Rightarrow> string list option \<Rightarrow> bool \<Rightarrow> string \<Rightarrow> error + encoder" where
  "init encoding_method_arg variables_arg ignore_format_arg errors_arg =
     (if encoding_method_arg \<notin> set [''count'', ''frequency''] then Inl ConfigError
      else
        (case check_parameter_errors errors_arg [''ignore'', ''raise'', ''encode''] of
           Some e \<Rightarrow> Inl e
         | None \<Rightarrow>
             Inr ((mixin_init variables_arg ignore_format_arg)
                    \<lparr>encoding_method := encoding_method_arg, errors := errors_arg\<rparr>)))"

text \<open>
  The loop of \<^verbatim>\<open>fit\<close> over \<^verbatim>\<open>self.variables_\<close>. \<open>d\<close> is \<^verbatim>\<open>self.encoder_dict_\<close>, which
  each pass assigns at \<^verbatim>\<open>var\<close>; \<^verbatim>\<open>X[var]\<close> raises \<^verbatim>\<open>KeyError\<close> for a name that is not a
  column, and what was assigned until then stays. A method other than the two names
  assigns nothing.
\<close>

fun learn_encoding_maps ::
  "(rat \<Rightarrow> rat) \<Rightarrow> string \<Rightarrow> cell option \<Rightarrow> dataframe \<Rightarrow> string list \<Rightarrow> (string \<times> pydict) list
     \<Rightarrow> (string \<times> pydict) list \<times> error option" where
  "learn_encoding_maps rnd method dct_init X [] d = (d, None)"
| "learn_encoding_maps rnd method dct_init X (var # vars) d =
     (if method = ''count'' then
        (case map_of X var of
           None \<Rightarrow> (d, Some (KeyError (Str var)))
         | Some s \<Rightarrow>
             learn_encoding_maps rnd method dct_init X vars
               (AList.update var (to_dict dct_init (value_counts rnd False s)) d))
      else if method = ''frequency'' then
        (case map_of X var of
           None \<Rightarrow> (d, Some (KeyError (Str var)))
         | Some s \<Rightarrow>
             learn_encoding_maps rnd method dct_init X vars
               (AList.update var (to_dict dct_init (value_counts rnd True s)) d))
      else learn_encoding_maps rnd method dct_init X vars d)"

text \<open>
  \<^verbatim>\<open>CountFrequencyEncoder.fit\<close>. The method assigns attributes of \<^verbatim>\<open>self\<close> as it goes and
  either returns \<^verbatim>\<open>self\<close> or raises: the result is the object as the call leaves it,
  with \<open>None\<close> when \<^verbatim>\<open>self\<close> was returned and \<open>Some e\<close> when \<open>e\<close> was raised. The
  last call, \<^verbatim>\<open>self._check_encoding_dictionary()\<close>, is a method of the object: it hands
  the object back as it leaves it. \<^verbatim>\<open>y\<close> is not used.
\<close>

definition fit :: "(rat \<Rightarrow> rat) \<Rightarrow> selector \<Rightarrow> encoder \<Rightarrow> dataframe \<Rightarrow> encoder \<times> error option" where
  "fit rnd sel self X0 =
     (case check_X X0 of
        Inl e \<Rightarrow> (self, Some e)
      | Inr X \<Rightarrow>
          (case mixin_fit sel self X of
             (self1, Some e) \<Rightarrow> (self1, Some e)
           | (self1, None) \<Rightarrow>
               (let self2 = get_feature_names_in self1 X;
                    self3 = self2\<lparr>encoder_dict' := Some []\<rparr>;
                    dct_init = (if errors self3 = ''encode'' then Some (Num 0) else None)
                in case variables' self3 of
                     None \<Rightarrow> (self3, Some AttributeError)
                   | Some vars \<Rightarrow>
                       (case learn_encoding_maps rnd (encoding_method self3) dct_init X vars [] of
                          (d, Some e) \<Rightarrow> (self3\<lparr>encoder_dict' := Some d\<rparr>, Some e)
                        | (d, None) \<Rightarrow>
                            check_encoding_dictionary (self3\<lparr>encoder_dict' := Some d\<rparr>)))))"

section \<open>transform and inverse_transform\<close>

text \<open>
  Modelled from the spec: \<^verbatim>\<open>transform\<close> and \<^verbatim>\<open>inverse_transform\<close> are methods of
  \<^verbatim>\<open>CategoricalMethodsMixin\<close> (in \<^verbatim>\<open>feature_engine/encoding/base_encoder.py\<close>, not among
  the sources). The definitions below follow the Transformer and the Inverse
  Transformer of the spec.

  The lookup of a per-variable map "explicitly check[s] entries first, falling back
  to default, else signaling a miss"; it does not change the map.
\<close>

definition lookup :: "pydict \<Rightarrow> cell \<Rightarrow> cell option" where
  "lookup m c = (case map_of (entries m) c of Some s \<Rightarrow> Some s | None \<Rightarrow> default_factory m)"

text \<open>"IGNORE: the cell becomes a missing/undefined value"; with a default the miss yields it.\<close>

definition encode_cell :: "pydict \<Rightarrow> cell \<Rightarrow> cell" where
  "encode_cell m c = (case lookup m c of Some s \<Rightarrow> s | None \<Rightarrow> NaN)"

text \<open>
  "build the reverse mapping (statistic -> category) at call time from the stored
  forward mapping, then replace each numeric cell with its corresponding category";
  of two categories with one statistic the first of the map is taken; a value with
  no key "passes through unchanged (or remains missing)".
\<close>

definition inverse_map :: "pydict \<Rightarrow> (cell \<times> cell) list" where
  "inverse_map m = map (\<lambda>(k, s). (s, k)) (entries m)"

definition decode_cell :: "pydict \<Rightarrow> cell \<Rightarrow> cell" where
  "decode_cell m c =
     (case c of
        Num r \<Rightarrow> (case map_of (inverse_map m) c of Some k \<Rightarrow> k | None \<Rightarrow> c)
      | _ \<Rightarrow> c)"

text \<open>"Fitted State exists": the four attributes of the Fitted State are on the object.\<close>

definition is_fitted :: "encoder \<Rightarrow> bool" where
  "is_fitted self =
     (variables' self \<noteq> None \<and> feature_names_in' self \<noteq> None \<and> n_features_in' self \<noteq> None
      \<and> encoder_dict' self \<noteq> None)"

text \<open>
  "the dataset contains all variables_ as columns with a schema (set and order of all
  columns) matching the one recorded in Fitted State".
\<close>

definition schema_ok :: "encoder \<Rightarrow> dataframe \<Rightarrow> bool" where
  "schema_ok self X =
     (feature_names_in' self = Some (map fst X) \<and> n_features_in' self = Some (length X)
      \<and> (case variables' self of
            None \<Rightarrow> False
          | Some vars \<Rightarrow> list_all (\<lambda>v. v \<in> set (map fst X)) vars))"

text \<open>The map of a fitted variable, and the columns a method changes.\<close>

definition map_for :: "encoder \<Rightarrow> string \<Rightarrow> pydict option" where
  "map_for self name =
     (case (variables' self, encoder_dict' self) of
        (Some vars, Some d) \<Rightarrow> if name \<in> set vars then map_of d name else None
      | _ \<Rightarrow> None)"

definition map_columns :: "(pydict \<Rightarrow> cell \<Rightarrow> cell) \<Rightarrow> encoder \<Rightarrow> dataframe \<Rightarrow> dataframe" where
  "map_columns f self X =
     map (\<lambda>(name, s).
            (name, case map_for self name of
                     None \<Rightarrow> s
                   | Some m \<Rightarrow> Object (map (f m) (series_values s)))) X"

text \<open>
  A column has an unseen category when one of its cells is not a key of the learned
  map; the offending variables are the fitted variables with such a column.
\<close>

definition has_unseen :: "pydict \<Rightarrow> series \<Rightarrow> bool" where
  "has_unseen m s = list_ex (\<lambda>c. map_of (entries m) c = None) (series_values s)"

definition offending_variables :: "encoder \<Rightarrow> dataframe \<Rightarrow> string list" where
  "offending_variables self X =
     map fst (filter (\<lambda>(name, s). case map_for self name of
                                     None \<Rightarrow> False
                                   | Some m \<Rightarrow> has_unseen m s) X)"

definition transform :: "encoder \<Rightarrow> dataframe \<Rightarrow> error + dataframe" where
  "transform self X =
     (if \<not> is_fitted self then Inl StateError
      else if \<not> schema_ok self X then Inl SchemaError
      else if errors self = ''raise'' \<and> offending_variables self X \<noteq> []
        then Inl (UnseenCategoryError (offending_variables self X))
      else Inr (map_columns encode_cell self X))"

definition inverse_transform :: "encoder \<Rightarrow> dataframe \<Rightarrow> error + dataframe" where
  "inverse_transform self X =
     (if \<not> is_fitted self then Inl StateError
      else if \<not> schema_ok self X then Inl SchemaError
      else Inr (map_columns decode_cell self X))"

section \<open>Notions the properties are stated with\<close>

text \<open>The number a statistic holds, and the sum of the statistics of a map.\<close>

fun num_value :: "cell \<Rightarrow> rat" where
  "num_value (Num r) = r"
| "num_value c = 0"

definition sum_statistics :: "pydict \<Rightarrow> rat" where
  "sum_statistics m = sum_list (map (\<lambda>(k, s). num_value s) (entries m))"

text \<open>
  What the frequencies need of float64 division. Counts \<open>0 < a \<le> b\<close> below \<open>2\<^sup>5\<^sup>3\<close>
  convert to float64 exactly and their quotient is far from the subnormal range, so
  the rounded quotient differs from the exact one by at most the relative error
  \<open>2\<^sup>-\<^sup>5\<^sup>3\<close> of round-to-nearest; it does not exceed 1, because 1 is a float64 and
  rounding is monotone; and \<^verbatim>\<open>0 / b\<close> is \<^verbatim>\<open>0.0\<close>.
\<close>

definition float64_rounding :: "(rat \<Rightarrow> rat) \<Rightarrow> bool" where
  "float64_rounding rnd =
     (rnd 0 = 0 \<and>
      (\<forall>a b :: nat. 0 < a \<and> a \<le> b \<and> b < 2 ^ 53 \<longrightarrow>
         \<bar>rnd (of_nat a / of_nat b) - of_nat a / of_nat b\<bar> \<le> (of_nat a / of_nat b) / 2 ^ 53
         \<and> rnd (of_nat a / of_nat b) \<le> 1))"

text \<open>The rows of a column that are not missing.\<close>

definition non_missing :: "series \<Rightarrow> cell list" where
  "non_missing s = filter (\<lambda>c. c \<noteq> NaN) (series_values s)"

text \<open>
  The training and the new dataset of the colour scenario, and a training dataset whose
  column is categorical with a declared category that no row bears.
\<close>

definition colour_training :: dataframe where
  "colour_training =
     [(''colour'', Object [Str ''blue'', Str ''blue'', Str ''blue'', Str ''red'', Str ''red'',
                          Str ''green'', Str ''green'', Str ''green'', Str ''green'',
                          Str ''green''])]"

definition colour_new :: dataframe where
  "colour_new = [(''colour'', Object [Str ''blue'', Str ''yellow''])]"

definition unobserved_training :: dataframe where
  "unobserved_training = [(''c'', Categorical [Str ''a''] [Str ''a'', Str ''b''])]"

text \<open>The encoder \<^verbatim>\<open>CountFrequencyEncoder(encoding_method, errors=errors)\<close> as constructed.\<close>

definition new_encoder :: "string \<Rightarrow> string \<Rightarrow> encoder" where
  "new_encoder encoding_method_arg errors_arg =
     \<lparr>encoding_method = encoding_method_arg, variables = None, ignore_format = False,
      errors = errors_arg, variables' = None, feature_names_in' = None,
      n_features_in' = None, encoder_dict' = None\<rparr>"

text \<open>The chained call \<^verbatim>\<open>encoder.fit(X).transform(Y)\<close>: what it returns, or what it raises.\<close>

definition fit_then_transform ::
  "(rat \<Rightarrow> rat) \<Rightarrow> selector \<Rightarrow> encoder \<Rightarrow> dataframe \<Rightarrow> dataframe \<Rightarrow> error + dataframe" where
  "fit_then_transform rnd sel self X Y =
     (case fit rnd sel self X of
        (self', Some e) \<Rightarrow> Inl e
      | (self', None) \<Rightarrow> transform self' Y)"

text \<open>The items of the map that \<^verbatim>\<open>encoder_dict_\<close> holds for a variable.\<close>

definition learned_mapping :: "encoder \<Rightarrow> string \<Rightarrow> (cell \<times> cell) list option" where
  "learned_mapping self v =
     (case encoder_dict' self of
        None \<Rightarrow> None
      | Some d \<Rightarrow> map_option entries (map_of d v))"

section \<open>Facts about the pandas operations\<close>

lemma set_unique: "set (unique xs) = set xs"
  by (induction xs rule: unique.induct) auto

lemma distinct_unique: "distinct (unique xs)"
  by (induction xs rule: unique.induct) (auto simp: set_unique)

lemma distinct_category_index: "distinct (category_index cats)"
  by (simp add: category_index_def distinct_unique)

lemma NaN_notin_category_index: "NaN \<notin> set (category_index cats)"
  by (simp add: category_index_def set_unique)

lemma distinct_index_keys: "distinct (index_keys s)"
  by (cases s) (simp_all add: distinct_unique distinct_category_index)

lemma NaN_notin_index_keys: "NaN \<notin> set (index_keys s)"
  by (cases s) (simp_all add: set_unique NaN_notin_category_index)

lemma values_subset_index_keys:
  "set (filter (\<lambda>c. c \<noteq> NaN) (series_values s)) \<subseteq> set (index_keys s)"
  by (cases s) (auto simp: set_unique)

lemma sum_list_sort_key:
  fixes g :: "'a \<Rightarrow> 'b::comm_monoid_add"
  shows "sum_list (map g (sort_key f xs)) = sum_list (map g xs)"
proof -
  have "sum_mset (mset (map g (sort_key f xs))) = sum_mset (mset (map g xs))" by simp
  then show ?thesis by (simp only: sum_mset_sum_list)
qed

lemma distinct_fst_sort_key: "distinct (map fst (sort_key f xs)) = distinct (map fst xs)"
  by (simp add: distinct_map)

lemma sum_counts_index_keys:
  "sum_list (map (count_list (filter (\<lambda>c. c \<noteq> NaN) (series_values s))) (index_keys s))
     = length (filter (\<lambda>c. c \<noteq> NaN) (series_values s))"
proof -
  have "sum_list (map (count_list (filter (\<lambda>c. c \<noteq> NaN) (series_values s))) (index_keys s))
          = sum (count_list (filter (\<lambda>c. c \<noteq> NaN) (series_values s))) (set (index_keys s))"
    by (simp add: sum_list_distinct_conv_sum_set distinct_index_keys)
  also have "\<dots> = length (filter (\<lambda>c. c \<noteq> NaN) (series_values s))"
    using values_subset_index_keys [of s] by (intro sum_count_set) simp_all
  finally show ?thesis .
qed

lemma update_absent: "k \<notin> fst ` set al \<Longrightarrow> AList.update k v al = al @ [(k, v)]"
  by (induction al) auto

lemma foldl_update_distinct:
  "distinct (map fst (acc @ kvs)) \<Longrightarrow>
     foldl (\<lambda>d (k, v). AList.update k v d) acc kvs = acc @ kvs"
proof (induction kvs arbitrary: acc)
  case Nil
  then show ?case by simp
next
  case (Cons kv kvs)
  obtain k v where kv: "kv = (k, v)" by (cases kv)
  from Cons.prems kv have absent: "k \<notin> fst ` set acc" by auto
  from Cons.prems kv have "distinct (map fst ((acc @ [(k, v)]) @ kvs))" by auto
  then have "foldl (\<lambda>d (k, v). AList.update k v d) (acc @ [(k, v)]) kvs = (acc @ [(k, v)]) @ kvs"
    by (rule Cons.IH)
  with absent kv show ?case by (simp add: update_absent)
qed

lemma entries_to_dict: "distinct (map fst kvs) \<Longrightarrow> entries (to_dict dct_init kvs) = kvs"
  using foldl_update_distinct [of "[]" kvs] by (simp add: to_dict_def)


lemma fst_value_counts:
  "map fst (value_counts rnd b s) =
     map fst (sort_key (\<lambda>(k, n). - int n)
       (map (\<lambda>k. (k, count_list (filter (\<lambda>c. c \<noteq> NaN) (series_values s)) k)) (index_keys s)))"
  by (simp add: value_counts_def Let_def case_prod_unfold comp_def)

lemma distinct_value_counts: "distinct (map fst (value_counts rnd b s))"
  by (simp add: fst_value_counts distinct_fst_sort_key comp_def distinct_index_keys)

lemma total_value_counts:
  "sum_list (map snd (sort_key (\<lambda>(k, n). - int n)
       (map (\<lambda>k. (k, count_list (filter (\<lambda>c. c \<noteq> NaN) (series_values s)) k)) (index_keys s))))
     = length (filter (\<lambda>c. c \<noteq> NaN) (series_values s))"
  using sum_counts_index_keys [of s] by (simp add: sum_list_sort_key comp_def)

lemma set_value_counts:
  "set (value_counts rnd b s) =
     (\<lambda>k. (k, if b then float_div rnd (count_list (filter (\<lambda>c. c \<noteq> NaN) (series_values s)) k)
                                     (length (filter (\<lambda>c. c \<noteq> NaN) (series_values s)))
               else Num (of_nat (count_list (filter (\<lambda>c. c \<noteq> NaN) (series_values s)) k))))
       ` set (index_keys s)"
  unfolding value_counts_def Let_def total_value_counts
  by (auto simp: image_iff)

section \<open>Facts about the loop and about fit\<close>



lemma learn_encoding_maps_columns:
  "learn_encoding_maps rnd method dct_init X vars d0 = (d, None) \<Longrightarrow>
     method = ''count'' \<or> method = ''frequency'' \<Longrightarrow> v \<in> set vars \<Longrightarrow> map_of X v \<noteq> None"
  by (induction vars arbitrary: d0) (auto split: if_splits option.splits)

lemma learn_encoding_maps_map_of:
  "learn_encoding_maps rnd method dct_init X vars d0 = (d, None) \<Longrightarrow>
     method = ''count'' \<or> method = ''frequency'' \<Longrightarrow>
     map_of d v =
       (if v \<in> set vars
        then map_option (\<lambda>s. to_dict dct_init (value_counts rnd (method = ''frequency'') s)) (map_of X v)
        else map_of d0 v)"
proof (induction vars arbitrary: d0)
  case Nil
  then show ?case by simp
next
  case (Cons var vars)
  from Cons.prems obtain s where s: "map_of X var = Some s"
    by (auto split: if_splits option.splits)
  let ?M = "to_dict dct_init (value_counts rnd (method = ''frequency'') s)"
  from Cons.prems s have rec: "learn_encoding_maps rnd method dct_init X vars (AList.update var ?M d0) = (d, None)"
    by (auto split: if_splits)
  from Cons.IH [OF rec Cons.prems(2)] s show ?case
    by (auto simp: update_conv')
qed

lemma check_encoding_dictionary_cases:
  assumes "check_encoding_dictionary s = (s', r)"
  shows "(s' = s \<and> r = None
            \<and> \<not> (errors s = ''encode'' \<and> (\<exists>d. encoder_dict' s = Some d \<and> has_zero_statistic d)))
       \<or> (s' = without_fitted_state s \<and> r = Some ConsistencyError \<and> errors s = ''encode''
            \<and> (\<exists>d. encoder_dict' s = Some d \<and> has_zero_statistic d))"
  using assms by (auto simp: check_encoding_dictionary_def split: if_splits option.splits)

lemma fit_unfold:
  "fit rnd sel self X =
     (case sel X (variables self) (ignore_format self) of
        None \<Rightarrow> (self, Some SelectorError)
      | Some vars \<Rightarrow>
          (case learn_encoding_maps rnd (encoding_method self)
                  (if errors self = ''encode'' then Some (Num 0) else None) X vars [] of
             (d, Some e) \<Rightarrow>
               (self\<lparr>variables' := Some vars, feature_names_in' := Some (map fst X),
                      n_features_in' := Some (length X), encoder_dict' := Some d\<rparr>, Some e)
           | (d, None) \<Rightarrow>
               check_encoding_dictionary
                 (self\<lparr>variables' := Some vars, feature_names_in' := Some (map fst X),
                        n_features_in' := Some (length X), encoder_dict' := Some d\<rparr>)))"
  by (simp add: fit_def check_X_def mixin_fit_def get_feature_names_in_def Let_def
           split: option.splits prod.splits)

lemma fit_cases:
  assumes "fit rnd sel self X = (self', r)"
  shows "(sel X (variables self) (ignore_format self) = None \<and> self' = self \<and> r = Some SelectorError)
       \<or> (\<exists>vars d e.
             sel X (variables self) (ignore_format self) = Some vars
           \<and> learn_encoding_maps rnd (encoding_method self)
                (if errors self = ''encode'' then Some (Num 0) else None) X vars [] = (d, Some e)
           \<and> self' = self\<lparr>variables' := Some vars, feature_names_in' := Some (map fst X),
                           n_features_in' := Some (length X), encoder_dict' := Some d\<rparr>
           \<and> r = Some e)
       \<or> (\<exists>vars d.
             sel X (variables self) (ignore_format self) = Some vars
           \<and> learn_encoding_maps rnd (encoding_method self)
                (if errors self = ''encode'' then Some (Num 0) else None) X vars [] = (d, None)
           \<and> check_encoding_dictionary
                 (self\<lparr>variables' := Some vars, feature_names_in' := Some (map fst X),
                        n_features_in' := Some (length X), encoder_dict' := Some d\<rparr>) = (self', r))"
proof (cases "sel X (variables self) (ignore_format self)")
  case None
  with assms show ?thesis by (simp add: fit_unfold)
next
  case (Some vars)
  obtain d r0 where l: "learn_encoding_maps rnd (encoding_method self)
      (if errors self = ''encode'' then Some (Num 0) else None) X vars [] = (d, r0)"
    by (cases "learn_encoding_maps rnd (encoding_method self)
      (if errors self = ''encode'' then Some (Num 0) else None) X vars []")
  show ?thesis
  proof (cases r0)
    case None
    with assms Some l show ?thesis by (simp add: fit_unfold)
  next
    case (Some e)
    with assms \<open>sel X (variables self) (ignore_format self) = Some vars\<close> l
    show ?thesis by (auto simp: fit_unfold)
  qed
qed

lemma count_list_filter: "P c \<Longrightarrow> count_list (filter P xs) c = count_list xs c"
  by (induction xs) auto

lemma fit_success:
  assumes "fit rnd sel self X = (self', None)"
  obtains vars d where
    "sel X (variables self) (ignore_format self) = Some vars"
    "learn_encoding_maps rnd (encoding_method self)
       (if errors self = ''encode'' then Some (Num 0) else None) X vars [] = (d, None)"
    "self' = self\<lparr>variables' := Some vars, feature_names_in' := Some (map fst X),
                    n_features_in' := Some (length X), encoder_dict' := Some d\<rparr>"
    "check_encoding_dictionary self' = (self', None)"
proof -
  from fit_cases [OF assms] obtain vars d where
    sel: "sel X (variables self) (ignore_format self) = Some vars"
    and learn: "learn_encoding_maps rnd (encoding_method self)
       (if errors self = ''encode'' then Some (Num 0) else None) X vars [] = (d, None)"
    and check: "check_encoding_dictionary
                 (self\<lparr>variables' := Some vars, feature_names_in' := Some (map fst X),
                        n_features_in' := Some (length X), encoder_dict' := Some d\<rparr>) = (self', None)"
    by auto
  from check_encoding_dictionary_cases [OF check]
  have "self' = self\<lparr>variables' := Some vars, feature_names_in' := Some (map fst X),
                        n_features_in' := Some (length X), encoder_dict' := Some d\<rparr>"
    by simp
  with sel learn check show ?thesis by (auto intro: that)
qed

lemma fit_map_for:
  assumes "fit rnd sel self X = (self', None)"
    and "encoding_method self = ''count'' \<or> encoding_method self = ''frequency''"
    and "variables' self' = Some vars" and "v \<in> set vars"
  shows "\<exists>s. map_of X v = Some s
           \<and> map_for self' v =
               Some (to_dict (if errors self = ''encode'' then Some (Num 0) else None)
                       (value_counts rnd (encoding_method self = ''frequency'') s))"
proof -
  from assms(1) obtain vars0 d where
    l: "learn_encoding_maps rnd (encoding_method self)
          (if errors self = ''encode'' then Some (Num 0) else None) X vars0 [] = (d, None)"
    and s: "self' = self\<lparr>variables' := Some vars0, feature_names_in' := Some (map fst X),
                         n_features_in' := Some (length X), encoder_dict' := Some d\<rparr>"
    by (rule fit_success)
  from s assms(3) have vars: "vars0 = vars" by simp
  from learn_encoding_maps_columns [OF l assms(2)] vars assms(4)
  obtain col where col: "map_of X v = Some col" by auto
  from learn_encoding_maps_map_of [OF l assms(2), of v] vars assms(4) col
  have "map_of d v = Some (to_dict (if errors self = ''encode'' then Some (Num 0) else None)
                       (value_counts rnd (encoding_method self = ''frequency'') col))"
    by simp
  with s vars assms(4) col show ?thesis by (simp add: map_for_def)
qed

lemma sum_list_of_nat_snd:
  "sum_list (map (\<lambda>p. rat_of_nat (snd p)) xs) = of_nat (sum_list (map snd xs))"
  by (induction xs) simp_all

lemma sum_statistics_count:
  "sum_statistics (to_dict dct_init (value_counts rnd False s)) = of_nat (length (non_missing s))"
proof -
  let ?sorted = "sort_key (\<lambda>(k, n). - int n)
       (map (\<lambda>k. (k, count_list (filter (\<lambda>c. c \<noteq> NaN) (series_values s)) k)) (index_keys s))"
  have "sum_statistics (to_dict dct_init (value_counts rnd False s))
          = sum_list (map (\<lambda>(k, s). num_value s) (value_counts rnd False s))"
    by (simp add: sum_statistics_def entries_to_dict distinct_value_counts)
  also have "\<dots> = sum_list (map (\<lambda>p. of_nat (snd p)) ?sorted)"
    by (simp add: value_counts_def Let_def comp_def case_prod_unfold)
  also have "\<dots> = of_nat (sum_list (map snd ?sorted))"
    by (rule sum_list_of_nat_snd)
  also have "\<dots> = of_nat (length (non_missing s))"
    by (simp only: total_value_counts non_missing_def)
  finally show ?thesis .
qed


section \<open>The colour scenario, evaluated\<close>


lemmas eval_defs = fit_unfold select_variables_def new_encoder_def colour_training_def colour_new_def
  unobserved_training_def value_counts_def to_dict_def float_div_def category_index_def
  check_encoding_dictionary_def without_fitted_state_def has_zero_statistic_def Let_def

lemma fit_colour_count:
  "fit rnd select_variables (new_encoder ''count'' p) colour_training =
     ((new_encoder ''count'' p)\<lparr>variables' := Some [''colour''], feature_names_in' := Some [''colour''],
        n_features_in' := Some 1,
        encoder_dict' := Some [(''colour'',
           \<lparr>entries = [(Str ''green'', Num 5), (Str ''blue'', Num 3), (Str ''red'', Num 2)],
            default_factory = (if p = ''encode'' then Some (Num 0) else None)\<rparr>)]\<rparr>, None)"
  by (simp add: eval_defs)

lemma fit_colour_frequency:
  "p \<noteq> ''encode'' \<or> (rnd (1 / 2) \<noteq> 0 \<and> rnd (3 / 10) \<noteq> 0 \<and> rnd (1 / 5) \<noteq> 0) \<Longrightarrow>
   fit rnd select_variables (new_encoder ''frequency'' p) colour_training =
     ((new_encoder ''frequency'' p)\<lparr>variables' := Some [''colour''], feature_names_in' := Some [''colour''],
        n_features_in' := Some 1,
        encoder_dict' := Some [(''colour'',
           \<lparr>entries = [(Str ''green'', Num (rnd (1 / 2))), (Str ''blue'', Num (rnd (3 / 10))),
                       (Str ''red'', Num (rnd (1 / 5)))],
            default_factory = (if p = ''encode'' then Some (Num 0) else None)\<rparr>)]\<rparr>, None)"
  by (auto simp: eval_defs)


section \<open>Rounded quotients\<close>

lemma float64_rounding_id: "float64_rounding id"
  by (simp add: float64_rounding_def)

lemma divide_pow53_le: "(0::rat) \<le> x \<Longrightarrow> x / 2 ^ 53 \<le> x"
  using mult_left_mono [of "1 / 2 ^ 53" 1 x] by simp

lemma rounded_quotient_range:
  assumes "float64_rounding rnd" and "n \<le> N" and "0 < N" and "N < 2 ^ 53"
  shows "0 \<le> rnd (of_nat n / of_nat N) \<and> rnd (of_nat n / of_nat N) \<le> 1"
proof (cases "n = 0")
  case True
  with assms(1) show ?thesis by (simp add: float64_rounding_def)
next
  case False
  with assms have b: "\<bar>rnd (of_nat n / of_nat N) - of_nat n / of_nat N\<bar> \<le> (of_nat n / of_nat N) / 2 ^ 53"
    and u: "rnd (of_nat n / of_nat N) \<le> 1"
    by (simp_all add: float64_rounding_def)
  have "(0::rat) \<le> of_nat n / of_nat N" by simp
  moreover have "(of_nat n / of_nat N) / 2 ^ 53 \<le> (of_nat n / of_nat N :: rat)"
    using calculation by (rule divide_pow53_le)
  ultimately have "0 \<le> rnd (of_nat n / of_nat N)" using b by linarith
  with u show ?thesis by simp
qed

lemma rounded_quotient_nonzero:
  assumes "float64_rounding rnd" and "0 < n" and "n \<le> N" and "N < 2 ^ 53"
  shows "rnd (of_nat n / of_nat N) \<noteq> 0"
proof
  assume z: "rnd (of_nat n / of_nat N) = 0"
  from assms have "\<bar>rnd (of_nat n / of_nat N) - of_nat n / of_nat N\<bar> \<le> (of_nat n / of_nat N) / 2 ^ 53"
    by (simp add: float64_rounding_def)
  with z have le: "(of_nat n / of_nat N :: rat) \<le> (of_nat n / of_nat N) / 2 ^ 53" by simp
  from assms have pos: "(0::rat) < of_nat n / of_nat N" by simp
  from le pos show False by (simp add: field_simps)
qed

lemma rounded_sum_bound:
  assumes "float64_rounding rnd" and "0 < N" and "N < 2 ^ 53"
  shows "\<forall>n \<in> set ns. n \<le> N \<Longrightarrow>
     \<bar>sum_list (map (\<lambda>n. rnd (of_nat n / of_nat N)) ns) - of_nat (sum_list ns) / of_nat N\<bar>
       \<le> (of_nat (sum_list ns) / of_nat N) / 2 ^ 53"
proof (induction ns)
  case Nil
  then show ?case by simp
next
  case (Cons n ns)
  have step: "\<bar>rnd (of_nat n / of_nat N) - of_nat n / of_nat N\<bar> \<le> (of_nat n / of_nat N) / 2 ^ 53"
  proof (cases "n = 0")
    case True
    with assms(1) show ?thesis by (simp add: float64_rounding_def)
  next
    case False
    with assms Cons.prems show ?thesis by (simp add: float64_rounding_def)
  qed
  have ih: "\<bar>sum_list (map (\<lambda>n. rnd (of_nat n / of_nat N)) ns) - of_nat (sum_list ns) / of_nat N\<bar>
       \<le> (of_nat (sum_list ns) / of_nat N) / 2 ^ 53"
    using Cons.IH Cons.prems by simp
  have split: "of_nat (sum_list (n # ns)) / (of_nat N :: rat)
       = of_nat n / of_nat N + of_nat (sum_list ns) / of_nat N"
    by (simp add: add_divide_distrib)
  show ?case
    unfolding split using step ih by (simp add: add_divide_distrib)
qed

lemma value_counts_normalized:
  assumes "non_missing s \<noteq> []"
  shows "value_counts rnd True s =
     map (\<lambda>p. (fst p, Num (rnd (of_nat (snd p) / of_nat (length (non_missing s))))))
       (sort_key (\<lambda>(k, n). - int n)
          (map (\<lambda>k. (k, count_list (non_missing s) k)) (index_keys s)))"
  using assms unfolding value_counts_def Let_def non_missing_def [symmetric]
    total_value_counts [unfolded non_missing_def [symmetric]]
  by (simp add: float_div_def case_prod_unfold)

lemma sum_statistics_frequency:
  assumes "float64_rounding rnd" and "non_missing s \<noteq> []" and "length (non_missing s) < 2 ^ 53"
  shows "\<bar>sum_statistics (to_dict dct_init (value_counts rnd True s)) - 1\<bar> \<le> 1 / 2 ^ 53"
proof -
  let ?N = "length (non_missing s)"
  let ?sorted = "sort_key (\<lambda>(k, n). - int n)
          (map (\<lambda>k. (k, count_list (non_missing s) k)) (index_keys s))"
  let ?ns = "map snd ?sorted"
  from assms(2) have N: "0 < ?N" by simp
  have "sum_statistics (to_dict dct_init (value_counts rnd True s))
          = sum_list (map (\<lambda>(k, s). num_value s) (value_counts rnd True s))"
    by (simp add: sum_statistics_def entries_to_dict distinct_value_counts)
  also have "\<dots> = sum_list (map (\<lambda>n. rnd (of_nat n / of_nat ?N)) ?ns)"
    by (simp add: value_counts_normalized [OF assms(2)] comp_def)
  finally have eq: "sum_statistics (to_dict dct_init (value_counts rnd True s))
          = sum_list (map (\<lambda>n. rnd (of_nat n / of_nat ?N)) ?ns)" .
  have total: "sum_list ?ns = ?N"
    using total_value_counts [of s] by (simp add: non_missing_def)
  have "\<forall>n \<in> set ?ns. n \<le> ?N"
    by (auto simp: count_le_length)
  from rounded_sum_bound [OF assms(1) N assms(3) this]
  have "\<bar>sum_list (map (\<lambda>n. rnd (of_nat n / of_nat ?N)) ?ns) - of_nat (sum_list ?ns) / of_nat ?N\<bar>
       \<le> (of_nat (sum_list ?ns) / of_nat ?N) / 2 ^ 53" by simp
  with N show ?thesis unfolding eq total by simp
qed


section \<open>Count encoding\<close>

text \<open>
  C1. When \<^verbatim>\<open>fit\<close> returns an encoder with \<^verbatim>\<open>encoding_method='count'\<close>, every fitted
  variable \<open>v\<close> has a map in \<^verbatim>\<open>encoder_dict_\<close>; the value the map holds for each of its
  categories is the number of rows of the training column of \<open>v\<close> that bear the
  category; every category a row bears is a key; and the values of the map sum to the
  number of rows of the column that are not missing.
\<close>

theorem count_encoding_counts_rows:
  assumes "fit rnd sel self X = (self', None)"
    and "encoding_method self = ''count''"
    and "variables' self' = Some vars" and "v \<in> set vars"
  shows "\<exists>m s. map_for self' v = Some m \<and> map_of X v = Some s
           \<and> (\<forall>c. c \<in> fst ` set (entries m) \<longrightarrow>
                  map_of (entries m) c = Some (Num (of_nat (count_list (series_values s) c))))
           \<and> (\<forall>c. c \<in> set (non_missing s) \<longrightarrow> c \<in> fst ` set (entries m))
           \<and> distinct (map fst (entries m))
           \<and> sum_statistics m = of_nat (length (non_missing s))"
proof -
  let ?dct = "if errors self = ''encode'' then Some (Num 0) else None"
  from fit_map_for [OF assms(1) _ assms(3,4)] assms(2)
  obtain s where s: "map_of X v = Some s"
    and m: "map_for self' v = Some (to_dict ?dct (value_counts rnd False s))"
    by auto
  let ?m = "to_dict ?dct (value_counts rnd False s)"
  have e: "entries ?m = value_counts rnd False s"
    by (simp add: entries_to_dict distinct_value_counts)
  have d: "distinct (map fst (entries ?m))"
    by (simp add: e distinct_value_counts)
  have keys: "fst ` set (entries ?m) = set (index_keys s)"
    by (simp add: e set_value_counts image_image)
  have "\<And>c. c \<in> fst ` set (entries ?m) \<Longrightarrow>
          map_of (entries ?m) c = Some (Num (of_nat (count_list (series_values s) c)))"
  proof -
    fix c assume "c \<in> fst ` set (entries ?m)"
    with keys have k: "c \<in> set (index_keys s)" by simp
    with NaN_notin_index_keys [of s] have "c \<noteq> NaN" by auto
    then have "count_list (filter (\<lambda>c. c \<noteq> NaN) (series_values s)) c = count_list (series_values s) c"
      by (simp add: count_list_filter)
    with k have "(c, Num (of_nat (count_list (series_values s) c))) \<in> set (entries ?m)"
      by (auto simp: e set_value_counts)
    with d show "map_of (entries ?m) c = Some (Num (of_nat (count_list (series_values s) c)))"
      by simp
  qed
  moreover have "\<And>c. c \<in> set (non_missing s) \<Longrightarrow> c \<in> fst ` set (entries ?m)"
    using values_subset_index_keys [of s] keys by (auto simp: non_missing_def)
  moreover have "sum_statistics ?m = of_nat (length (non_missing s))"
    by (rule sum_statistics_count)
  ultimately show ?thesis using s m d by blast
qed

theorem count_encoding_counts_rows_witness:
  "snd (fit id select_variables (new_encoder ''count'' ''ignore'') colour_training) = None
   \<and> (\<exists>m. map_for (fst (fit id select_variables (new_encoder ''count'' ''ignore'') colour_training))
              ''colour'' = Some m
          \<and> map_of (entries m) (Str ''green'') = Some (Num 5)
          \<and> sum_statistics m = 10)"
proof -
  let ?f = "fit id select_variables (new_encoder ''count'' ''ignore'') colour_training"
  have f: "?f = (fst ?f, None)" by (simp add: fit_colour_count)
  have vs: "variables' (fst ?f) = Some [''colour'']" by (simp add: fit_colour_count)
  have em: "encoding_method (new_encoder ''count'' ''ignore'') = ''count''"
    by (simp add: new_encoder_def)
  from count_encoding_counts_rows [OF f em vs, of "''colour''"]
  obtain m s where m: "map_for (fst ?f) ''colour'' = Some m"
    and s: "map_of colour_training ''colour'' = Some s"
    and val: "\<forall>c. c \<in> fst ` set (entries m) \<longrightarrow>
                 map_of (entries m) c = Some (Num (of_nat (count_list (series_values s) c)))"
    and key: "\<forall>c. c \<in> set (non_missing s) \<longrightarrow> c \<in> fst ` set (entries m)"
    and total: "sum_statistics m = of_nat (length (non_missing s))"
    by auto
  from s have s_eq: "s = Object [Str ''blue'', Str ''blue'', Str ''blue'', Str ''red'', Str ''red'',
                          Str ''green'', Str ''green'', Str ''green'', Str ''green'', Str ''green'']"
    by (simp add: colour_training_def)
  from key have "Str ''green'' \<in> fst ` set (entries m)" by (simp add: s_eq non_missing_def)
  with val have "map_of (entries m) (Str ''green'') = Some (Num 5)" by (simp add: s_eq)
  moreover from total have "sum_statistics m = 10" by (simp add: s_eq non_missing_def)
  ultimately show ?thesis using m f by (metis snd_conv)
qed


section \<open>Frequency encoding\<close>

text \<open>
  C2. When \<^verbatim>\<open>fit\<close> returns an encoder with \<^verbatim>\<open>encoding_method='frequency'\<close>, every
  fitted variable \<open>v\<close> whose training column has a row that is not missing (and fewer
  than \<open>2\<^sup>5\<^sup>3\<close> of them) has a map whose value for each category is the float64
  quotient of the category's count by the number of non-missing rows, a value in
  \<open>[0, 1]\<close>; and the values of the map sum to 1 within \<open>10\<^sup>-\<^sup>9\<close>.
\<close>

theorem frequency_encoding_sums_to_one:
  assumes "fit rnd sel self X = (self', None)"
    and "encoding_method self = ''frequency''"
    and "variables' self' = Some vars" and "v \<in> set vars"
    and "map_of X v = Some s"
    and "non_missing s \<noteq> []" and "length (non_missing s) < 2 ^ 53"
    and "float64_rounding rnd"
  shows "\<exists>m. map_for self' v = Some m
           \<and> (\<forall>c. c \<in> fst ` set (entries m) \<longrightarrow>
                  (\<exists>q. map_of (entries m) c = Some (Num q)
                     \<and> q = rnd (of_nat (count_list (series_values s) c) / of_nat (length (non_missing s)))
                     \<and> 0 \<le> q \<and> q \<le> 1))
           \<and> (\<forall>c. c \<in> set (non_missing s) \<longrightarrow> c \<in> fst ` set (entries m))
           \<and> \<bar>sum_statistics m - 1\<bar> \<le> 1 / 10 ^ 9"
proof -
  let ?dct = "if errors self = ''encode'' then Some (Num 0) else None"
  let ?N = "length (non_missing s)"
  let ?m = "to_dict ?dct (value_counts rnd True s)"
  from fit_map_for [OF assms(1) _ assms(3,4)] assms(2,5)
  have m: "map_for self' v = Some ?m" by auto
  have e: "entries ?m = value_counts rnd True s"
    by (simp add: entries_to_dict distinct_value_counts)
  have d: "distinct (map fst (entries ?m))"
    by (simp add: e distinct_value_counts)
  have keys: "fst ` set (entries ?m) = set (index_keys s)"
    by (simp add: e set_value_counts image_image)
  from assms(6) have N: "0 < ?N" by simp
  have "\<And>c. c \<in> fst ` set (entries ?m) \<Longrightarrow>
          (\<exists>q. map_of (entries ?m) c = Some (Num q)
             \<and> q = rnd (of_nat (count_list (series_values s) c) / of_nat ?N) \<and> 0 \<le> q \<and> q \<le> 1)"
  proof -
    fix c assume "c \<in> fst ` set (entries ?m)"
    with keys have k: "c \<in> set (index_keys s)" by simp
    with NaN_notin_index_keys [of s] have "c \<noteq> NaN" by auto
    then have cnt: "count_list (filter (\<lambda>c. c \<noteq> NaN) (series_values s)) c = count_list (series_values s) c"
      by (simp add: count_list_filter)
    let ?q = "rnd (of_nat (count_list (series_values s) c) / of_nat ?N)"
    from k cnt N have "(c, Num ?q) \<in> set (entries ?m)"
      by (auto simp: e set_value_counts float_div_def non_missing_def)
    with d have "map_of (entries ?m) c = Some (Num ?q)" by simp
    moreover have "count_list (series_values s) c \<le> ?N"
      using cnt count_le_length [of "filter (\<lambda>c. c \<noteq> NaN) (series_values s)" c]
      by (simp add: non_missing_def)
    then have "0 \<le> ?q \<and> ?q \<le> 1"
      using rounded_quotient_range [OF assms(8) _ N assms(7)] by simp
    ultimately show "\<exists>q. map_of (entries ?m) c = Some (Num q)
             \<and> q = rnd (of_nat (count_list (series_values s) c) / of_nat ?N) \<and> 0 \<le> q \<and> q \<le> 1"
      by simp
  qed
  moreover have "\<And>c. c \<in> set (non_missing s) \<Longrightarrow> c \<in> fst ` set (entries ?m)"
    using values_subset_index_keys [of s] keys by (auto simp: non_missing_def)
  moreover have "\<bar>sum_statistics ?m - 1\<bar> \<le> 1 / 10 ^ 9"
  proof -
    have "\<bar>sum_statistics ?m - 1\<bar> \<le> 1 / 2 ^ 53"
      by (rule sum_statistics_frequency [OF assms(8,6,7)])
    also have "(1::rat) / 2 ^ 53 \<le> 1 / 10 ^ 9" by simp
    finally show ?thesis .
  qed
  ultimately show ?thesis using m by blast
qed

theorem frequency_encoding_sums_to_one_witness:
  "snd (fit id select_variables (new_encoder ''frequency'' ''ignore'') colour_training) = None
   \<and> (\<exists>m. map_for (fst (fit id select_variables (new_encoder ''frequency'' ''ignore'') colour_training))
              ''colour'' = Some m
          \<and> map_of (entries m) (Str ''blue'') = Some (Num (3 / 10))
          \<and> \<bar>sum_statistics m - 1\<bar> \<le> 1 / 10 ^ 9)"
proof -
  let ?f = "fit id select_variables (new_encoder ''frequency'' ''ignore'') colour_training"
  let ?s = "Object [Str ''blue'', Str ''blue'', Str ''blue'', Str ''red'', Str ''red'',
                          Str ''green'', Str ''green'', Str ''green'', Str ''green'', Str ''green'']"
  have f: "?f = (fst ?f, None)" by (simp add: fit_colour_frequency)
  have vs: "variables' (fst ?f) = Some [''colour'']" by (simp add: fit_colour_frequency)
  have em: "encoding_method (new_encoder ''frequency'' ''ignore'') = ''frequency''"
    by (simp add: new_encoder_def)
  have s: "map_of colour_training ''colour'' = Some ?s" by (simp add: colour_training_def)
  have ne: "non_missing ?s \<noteq> []" and len: "length (non_missing ?s) < 2 ^ 53"
    by (simp_all add: non_missing_def)
  from frequency_encoding_sums_to_one [OF f em vs _ s ne len float64_rounding_id]
  obtain m where m: "map_for (fst ?f) ''colour'' = Some m"
    and val: "\<forall>c. c \<in> fst ` set (entries m) \<longrightarrow>
                 (\<exists>q. map_of (entries m) c = Some (Num q)
                    \<and> q = id (of_nat (count_list (series_values ?s) c) / of_nat (length (non_missing ?s)))
                    \<and> 0 \<le> q \<and> q \<le> 1)"
    and key: "\<forall>c. c \<in> set (non_missing ?s) \<longrightarrow> c \<in> fst ` set (entries m)"
    and total: "\<bar>sum_statistics m - 1\<bar> \<le> 1 / 10 ^ 9"
    by auto
  from key have "Str ''blue'' \<in> fst ` set (entries m)" by (simp add: non_missing_def)
  with val have "map_of (entries m) (Str ''blue'') = Some (Num (3 / 10))"
    by (auto simp: non_missing_def)
  with total show ?thesis using m f by (metis snd_conv)
qed

section \<open>The default of the stored maps\<close>




section \<open>The consistency check\<close>




section \<open>The RAISE policy\<close>

lemma offending_variables_iff:
  "w \<in> set (offending_variables self X) =
     (\<exists>s m. (w, s) \<in> set X \<and> map_for self w = Some m \<and> has_unseen m s)"
  by (auto simp: offending_variables_def image_iff split: option.splits) 

lemma has_unseen_iff:
  "has_unseen m s = (\<exists>c. c \<in> set (series_values s) \<and> map_of (entries m) c = None)"
  by (auto simp: has_unseen_def list_ex_iff)

lemma is_fitted_errors_update: "is_fitted (self\<lparr>errors := p\<rparr>) = is_fitted self"
  by (simp add: is_fitted_def)

lemma schema_ok_errors_update: "schema_ok (self\<lparr>errors := p\<rparr>) X = schema_ok self X"
  by (simp add: schema_ok_def)

text \<open>
  C5. Let the encoder have the Fitted State and \<^verbatim>\<open>errors='raise'\<close>, and let the dataset
  match the schema recorded at fit time. If a column of an encoded variable \<open>v\<close> holds
  a value that is not a key of the map learned for \<open>v\<close>, then \<^verbatim>\<open>transform\<close> returns no
  dataset: it fails with \<open>UnseenCategoryError\<close>, which carries the offending
  variables, \<open>v\<close> among them, each with such a value. \<^verbatim>\<open>transform\<close> does not change the
  encoder, so on the same encoder a dataset of the schema without unseen values is
  transformed, and so is the same dataset once the policy is \<^verbatim>\<open>'ignore'\<close>.
\<close>

theorem raise_policy_fails_on_unseen:
  assumes "is_fitted self" and "schema_ok self X" and "errors self = ''raise''"
    and "(v, s) \<in> set X" and "map_for self v = Some m"
    and "c \<in> set (series_values s)" and "map_of (entries m) c = None"
  shows "transform self X = Inl (UnseenCategoryError (offending_variables self X))
       \<and> v \<in> set (offending_variables self X)
       \<and> (\<forall>w. w \<in> set (offending_variables self X) \<longrightarrow>
              (\<exists>s' m' c'. (w, s') \<in> set X \<and> map_for self w = Some m'
                 \<and> c' \<in> set (series_values s') \<and> map_of (entries m') c' = None))
       \<and> (\<forall>X'. schema_ok self X' \<and> offending_variables self X' = [] \<longrightarrow>
              transform self X' = Inr (map_columns encode_cell self X'))
       \<and> transform (self\<lparr>errors := ''ignore''\<rparr>) X
            = Inr (map_columns encode_cell (self\<lparr>errors := ''ignore''\<rparr>) X)"
proof -
  from assms(4-7) have v: "v \<in> set (offending_variables self X)"
    by (auto simp: offending_variables_iff has_unseen_iff)
  then have ne: "offending_variables self X \<noteq> []" by auto
  from assms(1-3) ne
  have "transform self X = Inl (UnseenCategoryError (offending_variables self X))"
    by (simp add: transform_def)
  moreover have "\<forall>w. w \<in> set (offending_variables self X) \<longrightarrow>
              (\<exists>s' m' c'. (w, s') \<in> set X \<and> map_for self w = Some m'
                 \<and> c' \<in> set (series_values s') \<and> map_of (entries m') c' = None)"
    by (auto simp: offending_variables_iff has_unseen_iff)
  moreover from assms(1)
  have "\<forall>X'. schema_ok self X' \<and> offending_variables self X' = [] \<longrightarrow>
              transform self X' = Inr (map_columns encode_cell self X')"
    by (simp add: transform_def)
  moreover from assms(1,2)
  have "transform (self\<lparr>errors := ''ignore''\<rparr>) X
            = Inr (map_columns encode_cell (self\<lparr>errors := ''ignore''\<rparr>) X)"
    by (simp add: transform_def is_fitted_errors_update schema_ok_errors_update)
  ultimately show ?thesis using v by blast
qed

lemma fitted_colour_count_raise:
  "fit id select_variables (new_encoder ''count'' ''raise'') colour_training =
     (\<lparr>encoding_method = ''count'', variables = None, ignore_format = False, errors = ''raise'',
       variables' = Some [''colour''], feature_names_in' = Some [''colour''],
       n_features_in' = Some 1,
       encoder_dict' = Some [(''colour'',
           \<lparr>entries = [(Str ''green'', Num 5), (Str ''blue'', Num 3), (Str ''red'', Num 2)],
            default_factory = None\<rparr>)]\<rparr>, None)"
  unfolding fit_colour_count by (simp add: new_encoder_def)

theorem raise_policy_fails_on_unseen_witness:
  "transform (fst (fit id select_variables (new_encoder ''count'' ''raise'') colour_training)) colour_new
     = Inl (UnseenCategoryError [''colour''])
   \<and> transform (fst (fit id select_variables (new_encoder ''count'' ''raise'') colour_training))
        [(''colour'', Object [Str ''blue'', Str ''red''])]
     = Inr [(''colour'', Object [Num 3, Num 2])]
   \<and> transform ((fst (fit id select_variables (new_encoder ''count'' ''raise'') colour_training))
        \<lparr>errors := ''ignore''\<rparr>) colour_new
     = Inr [(''colour'', Object [Num 3, NaN])]"
proof -
  let ?e = "fst (fit id select_variables (new_encoder ''count'' ''raise'') colour_training)"
  let ?m = "\<lparr>entries = [(Str ''green'', Num 5), (Str ''blue'', Num 3), (Str ''red'', Num 2)],
            default_factory = None\<rparr>"
  let ?s = "Object [Str ''blue'', Str ''yellow'']"
  have fitted: "is_fitted ?e" and schema: "schema_ok ?e colour_new"
    and pol: "errors ?e = ''raise''" and col: "(''colour'', ?s) \<in> set colour_new"
    and m: "map_for ?e ''colour'' = Some ?m" and c: "Str ''yellow'' \<in> set (series_values ?s)"
    and miss: "map_of (entries ?m) (Str ''yellow'') = None"
    and off: "offending_variables ?e colour_new = [''colour'']"
    and ok: "schema_ok ?e [(''colour'', Object [Str ''blue'', Str ''red''])]"
            "offending_variables ?e [(''colour'', Object [Str ''blue'', Str ''red''])] = []"
    and enc: "map_columns encode_cell ?e [(''colour'', Object [Str ''blue'', Str ''red''])]
                = [(''colour'', Object [Num 3, Num 2])]"
             "map_columns encode_cell (?e\<lparr>errors := ''ignore''\<rparr>) colour_new
                = [(''colour'', Object [Num 3, NaN])]"
    unfolding fitted_colour_count_raise
    by (simp_all add: is_fitted_def schema_ok_def colour_new_def map_for_def
          offending_variables_def has_unseen_def map_columns_def encode_cell_def lookup_def)
  from raise_policy_fails_on_unseen [OF fitted schema pol col m c miss] off ok enc
  show ?thesis by simp
qed

section \<open>The colour scenario\<close>

lemmas transform_eval = fit_then_transform_def transform_def is_fitted_def schema_ok_def
  colour_new_def map_for_def offending_variables_def has_unseen_def map_columns_def
  encode_cell_def lookup_def learned_mapping_def new_encoder_def

lemma colour_frequency_nonzero:
  assumes "float64_rounding rnd"
  shows "rnd (1 / 2) \<noteq> 0" and "rnd (3 / 10) \<noteq> 0" and "rnd (1 / 5) \<noteq> 0"
  using rounded_quotient_nonzero [OF assms, of 1 2]
        rounded_quotient_nonzero [OF assms, of 3 10]
        rounded_quotient_nonzero [OF assms, of 1 5]
  by simp_all

lemma colour_count_mapping:
  "learned_mapping (fst (fit rnd select_variables (new_encoder ''count'' p) colour_training)) ''colour''
     = Some [(Str ''green'', Num 5), (Str ''blue'', Num 3), (Str ''red'', Num 2)]"
  unfolding fit_colour_count by (simp add: learned_mapping_def)

lemma colour_frequency_mapping:
  assumes "float64_rounding rnd"
  shows "learned_mapping (fst (fit rnd select_variables (new_encoder ''frequency'' p) colour_training)) ''colour''
     = Some [(Str ''green'', Num (rnd (1 / 2))), (Str ''blue'', Num (rnd (3 / 10))),
             (Str ''red'', Num (rnd (1 / 5)))]"
  by (simp add: fit_colour_frequency colour_frequency_nonzero [OF assms] learned_mapping_def)

lemma colour_count_transform:
  "fit_then_transform rnd select_variables (new_encoder ''count'' ''ignore'') colour_training colour_new
     = Inr [(''colour'', Object [Num 3, NaN])]"
  "fit_then_transform rnd select_variables (new_encoder ''count'' ''raise'') colour_training colour_new
     = Inl (UnseenCategoryError [''colour''])"
  "fit_then_transform rnd select_variables (new_encoder ''count'' ''encode'') colour_training colour_new
     = Inr [(''colour'', Object [Num 3, Num 0])]"
  unfolding fit_then_transform_def fit_colour_count
  by (simp_all add: transform_eval)

lemma colour_frequency_transform:
  "fit_then_transform rnd select_variables (new_encoder ''frequency'' ''ignore'') colour_training colour_new
     = Inr [(''colour'', Object [Num (rnd (3 / 10)), NaN])]"
  "fit_then_transform rnd select_variables (new_encoder ''frequency'' ''raise'') colour_training colour_new
     = Inl (UnseenCategoryError [''colour''])"
  "float64_rounding rnd \<Longrightarrow>
   fit_then_transform rnd select_variables (new_encoder ''frequency'' ''encode'') colour_training colour_new
     = Inr [(''colour'', Object [Num (rnd (3 / 10)), Num 0])]"
  by (simp_all add: fit_then_transform_def fit_colour_frequency colour_frequency_nonzero)
     (simp_all add: transform_eval)

text \<open>
  C6. Fitted on the ten rows blue, blue, blue, red, red, green, green, green, green,
  green, the encoder learns \<open>{green: 5, blue: 3, red: 2}\<close> with \<^verbatim>\<open>'count'\<close> and
  \<open>{green: 0.5, blue: 0.3, red: 0.2}\<close> with \<^verbatim>\<open>'frequency'\<close> (the float64 quotients
  \<open>rnd (1 / 2)\<close>, \<open>rnd (3 / 10)\<close>, \<open>rnd (1 / 5)\<close>), whatever the policy. Transforming
  blue, yellow then gives \<open>[3, NaN]\<close> and \<open>[0.3, NaN]\<close> with \<^verbatim>\<open>'ignore'\<close>, fails with
  \<^verbatim>\<open>'raise'\<close>, and gives \<open>[3, 0]\<close> and \<open>[0.3, 0]\<close> with \<^verbatim>\<open>'encode'\<close>.
\<close>

theorem colour_scenario:
  assumes "float64_rounding rnd"
  shows "learned_mapping (fst (fit rnd select_variables (new_encoder ''count'' p) colour_training)) ''colour''
           = Some [(Str ''green'', Num 5), (Str ''blue'', Num 3), (Str ''red'', Num 2)]
       \<and> learned_mapping (fst (fit rnd select_variables (new_encoder ''frequency'' p) colour_training)) ''colour''
           = Some [(Str ''green'', Num (rnd (1 / 2))), (Str ''blue'', Num (rnd (3 / 10))),
                   (Str ''red'', Num (rnd (1 / 5)))]
       \<and> fit_then_transform rnd select_variables (new_encoder ''count'' ''ignore'') colour_training colour_new
           = Inr [(''colour'', Object [Num 3, NaN])]
       \<and> fit_then_transform rnd select_variables (new_encoder ''frequency'' ''ignore'') colour_training colour_new
           = Inr [(''colour'', Object [Num (rnd (3 / 10)), NaN])]
       \<and> fit_then_transform rnd select_variables (new_encoder ''count'' ''raise'') colour_training colour_new
           = Inl (UnseenCategoryError [''colour''])
       \<and> fit_then_transform rnd select_variables (new_encoder ''frequency'' ''raise'') colour_training colour_new
           = Inl (UnseenCategoryError [''colour''])
       \<and> fit_then_transform rnd select_variables (new_encoder ''count'' ''encode'') colour_training colour_new
           = Inr [(''colour'', Object [Num 3, Num 0])]
       \<and> fit_then_transform rnd select_variables (new_encoder ''frequency'' ''encode'') colour_training colour_new
           = Inr [(''colour'', Object [Num (rnd (3 / 10)), Num 0])]"
  using assms
  by (simp only: colour_count_mapping colour_frequency_mapping colour_count_transform
        colour_frequency_transform simp_thms)

theorem colour_scenario_witness:
  "float64_rounding id
   \<and> learned_mapping (fst (fit id select_variables (new_encoder ''frequency'' ''encode'') colour_training)) ''colour''
       = Some [(Str ''green'', Num (1 / 2)), (Str ''blue'', Num (3 / 10)), (Str ''red'', Num (1 / 5))]
   \<and> fit_then_transform id select_variables (new_encoder ''frequency'' ''encode'') colour_training colour_new
       = Inr [(''colour'', Object [Num (3 / 10), Num 0])]
   \<and> fit_then_transform id select_variables (new_encoder ''count'' ''raise'') colour_training colour_new
       = Inl (UnseenCategoryError [''colour''])"
  using colour_scenario [OF float64_rounding_id, of "''encode''"] float64_rounding_id by simp

section \<open>The round trip\<close>

lemma map_of_map_columns:
  "map_of (map_columns f self X) v =
     map_option (\<lambda>s. case map_for self v of
                        None \<Rightarrow> s
                      | Some m \<Rightarrow> Object (map (f m) (series_values s))) (map_of X v)"
  by (induction X) (auto simp: map_columns_def split: option.splits)

lemma fst_map_columns: "map fst (map_columns f self X) = map fst X"
  by (simp add: map_columns_def case_prod_unfold comp_def)

lemma length_map_columns: "length (map_columns f self X) = length X"
  by (simp add: map_columns_def)

lemma schema_ok_map_columns: "schema_ok self (map_columns f self X) = schema_ok self X"
  by (simp add: schema_ok_def fst_map_columns length_map_columns split: option.splits)

lemma transform_InrD:
  "transform self X = Inr Y \<Longrightarrow>
     is_fitted self \<and> schema_ok self X \<and> Y = map_columns encode_cell self X"
  by (auto simp: transform_def split: if_splits)

lemma inverse_transform_Inr:
  "is_fitted self \<Longrightarrow> schema_ok self X \<Longrightarrow>
     inverse_transform self X = Inr (map_columns decode_cell self X)"
  by (simp add: inverse_transform_def)

lemma inverse_transform_InlD:
  "is_fitted self \<Longrightarrow> inverse_transform self X = Inl e \<Longrightarrow> e = SchemaError \<and> \<not> schema_ok self X"
  by (auto simp: inverse_transform_def split: if_splits)

lemma decode_encode_cell:
  assumes "map_of (entries m) c = Some (Num q)" and "distinct (map snd (entries m))"
  shows "decode_cell m (encode_cell m c) = c"
proof -
  from assms(1) have enc: "encode_cell m c = Num q"
    by (simp add: encode_cell_def lookup_def)
  from assms(1) have "(c, Num q) \<in> set (entries m)" by (rule map_of_SomeD)
  then have mem: "(Num q, c) \<in> set (inverse_map m)"
    by (force simp: inverse_map_def)
  have "map fst (inverse_map m) = map snd (entries m)"
    by (simp add: inverse_map_def case_prod_unfold comp_def)
  with assms(2) have "distinct (map fst (inverse_map m))" by simp
  with mem have "map_of (inverse_map m) (Num q) = Some c" by simp
  with enc show ?thesis by (simp add: decode_cell_def)
qed

lemma decode_cell_pass_through: "map_of (inverse_map m) x = None \<Longrightarrow> decode_cell m x = x"
  by (cases x) (simp_all add: decode_cell_def)

lemma map_for_SomeD:
  "map_for self v = Some m \<Longrightarrow>
     \<exists>vars d. variables' self = Some vars \<and> encoder_dict' self = Some d \<and> v \<in> set vars
        \<and> map_of d v = Some m"
  by (auto simp: map_for_def split: option.splits if_splits)

lemma learn_encoding_maps_other_method:
  "method \<noteq> ''count'' \<Longrightarrow> method \<noteq> ''frequency'' \<Longrightarrow>
     learn_encoding_maps rnd method dct_init X vars d0 = (d0, None)"
  by (induction vars) auto

lemma fit_map_for_method:
  assumes "fit rnd sel self X = (self', None)" and "map_for self' v = Some m"
  shows "encoding_method self = ''count'' \<or> encoding_method self = ''frequency''"
proof (rule ccontr)
  assume "\<not> (encoding_method self = ''count'' \<or> encoding_method self = ''frequency'')"
  then have other: "encoding_method self \<noteq> ''count''" "encoding_method self \<noteq> ''frequency''"
    by simp_all
  from assms(1) obtain vars d where
    l: "learn_encoding_maps rnd (encoding_method self)
          (if errors self = ''encode'' then Some (Num 0) else None) X vars [] = (d, None)"
    and s: "self' = self\<lparr>variables' := Some vars, feature_names_in' := Some (map fst X),
                         n_features_in' := Some (length X), encoder_dict' := Some d\<rparr>"
    by (rule fit_success)
  from l have "d = []" by (simp add: learn_encoding_maps_other_method [OF other])
  with s have "map_for self' v = None" by (simp add: map_for_def)
  with assms(2) show False by simp
qed

lemma fit_observed_statistic:
  assumes "fit rnd sel self X = (self', None)"
    and "encoding_method self = ''count'' \<or> encoding_method self = ''frequency''"
    and "map_for self' v = Some m" and "map_of X v = Some s" and "c \<in> set (non_missing s)"
  shows "\<exists>q. map_of (entries m) c = Some (Num q)"
proof -
  let ?vals = "filter (\<lambda>c. c \<noteq> NaN) (series_values s)"
  let ?b = "encoding_method self = ''frequency''"
  from map_for_SomeD [OF assms(3)] obtain vars where
    vars: "variables' self' = Some vars" "v \<in> set vars" by auto
  from fit_map_for [OF assms(1,2) vars] assms(3,4)
  have m: "m = to_dict (if errors self = ''encode'' then Some (Num 0) else None)
                 (value_counts rnd ?b s)" by simp
  then have e: "entries m = value_counts rnd ?b s"
    by (simp add: entries_to_dict distinct_value_counts)
  from assms(5) have key: "c \<in> set (index_keys s)"
    using values_subset_index_keys [of s] by (auto simp: non_missing_def)
  from assms(5) have "length ?vals \<noteq> 0"
    by (auto simp: non_missing_def filter_empty_conv)
  then have "\<exists>q. (if ?b then float_div rnd (count_list ?vals c) (length ?vals)
                   else Num (of_nat (count_list ?vals c))) = Num q"
    by (simp add: float_div_def)
  then obtain q where "(c, Num q) \<in> set (entries m)"
    using key unfolding e set_value_counts by force
  moreover have "distinct (map fst (entries m))"
    by (simp add: e distinct_value_counts)
  ultimately show ?thesis by auto
qed

text \<open>
  C7. Let \<^verbatim>\<open>fit\<close> have returned the encoder, \<open>m\<close> be the map of a fitted variable \<open>v\<close>
  with no two categories sharing a statistic, and \<open>c\<close> a category some training row
  of \<open>v\<close> bears. Then decoding the encoding of \<open>c\<close> gives \<open>c\<close>; whenever \<^verbatim>\<open>transform\<close>
  returns a dataset, \<^verbatim>\<open>inverse_transform\<close> of it returns one too, with \<open>c\<close> again in every
  row of column \<open>v\<close> where the input had \<open>c\<close>; a value with no key in the reverse map is
  left as it is; and the only error of \<^verbatim>\<open>inverse_transform\<close> on the fitted encoder is
  \<open>SchemaError\<close>, on a dataset that does not match the schema.
\<close>

theorem inverse_transform_round_trip:
  assumes "fit rnd sel self X = (self', None)"
    and "map_for self' v = Some m" and "map_of X v = Some s" and "c \<in> set (non_missing s)"
    and "distinct (map snd (entries m))"
  shows "decode_cell m (encode_cell m c) = c
       \<and> (\<forall>Y Y'. transform self' Y = Inr Y' \<longrightarrow>
             (\<exists>Y''. inverse_transform self' Y' = Inr Y''
                \<and> (\<forall>t. map_of Y v = Some t \<longrightarrow>
                      (\<exists>t''. map_of Y'' v = Some t''
                         \<and> length (series_values t'') = length (series_values t)
                         \<and> (\<forall>i. i < length (series_values t) \<and> series_values t ! i = c \<longrightarrow>
                                series_values t'' ! i = c)))))
       \<and> (\<forall>x. map_of (inverse_map m) x = None \<longrightarrow> decode_cell m x = x)
       \<and> (\<forall>Z e. inverse_transform self' Z = Inl e \<longrightarrow> e = SchemaError \<and> \<not> schema_ok self' Z)"
proof -
  have "encoding_method self = ''count'' \<or> encoding_method self = ''frequency''"
    using assms(1,2) by (rule fit_map_for_method)
  from fit_observed_statistic [OF assms(1) this assms(2-4)] obtain q where
    "map_of (entries m) c = Some (Num q)" ..
  then have cell: "decode_cell m (encode_cell m c) = c"
    using assms(5) by (rule decode_encode_cell)
  have fitted: "is_fitted self'"
    using assms(1) by (rule fit_success) (simp add: is_fitted_def)
  have "\<exists>Y''. inverse_transform self' Y' = Inr Y''
          \<and> (\<forall>t. map_of Y v = Some t \<longrightarrow>
                (\<exists>t''. map_of Y'' v = Some t''
                   \<and> length (series_values t'') = length (series_values t)
                   \<and> (\<forall>i. i < length (series_values t) \<and> series_values t ! i = c \<longrightarrow>
                          series_values t'' ! i = c)))"
    if tr: "transform self' Y = Inr Y'" for Y Y'
  proof -
    from transform_InrD [OF tr] have ok: "schema_ok self' Y"
      and Y': "Y' = map_columns encode_cell self' Y" by simp_all
    from ok have "schema_ok self' Y'" by (simp add: Y' schema_ok_map_columns)
    with fitted have inv: "inverse_transform self' Y' = Inr (map_columns decode_cell self' Y')"
      by (rule inverse_transform_Inr)
    have "\<exists>t''. map_of (map_columns decode_cell self' Y') v = Some t''
             \<and> length (series_values t'') = length (series_values t)
             \<and> (\<forall>i. i < length (series_values t) \<and> series_values t ! i = c \<longrightarrow>
                    series_values t'' ! i = c)"
      if t: "map_of Y v = Some t" for t
      using t assms(2) cell by (simp add: Y' map_of_map_columns)
    with inv show ?thesis by blast
  qed
  moreover have "\<forall>x. map_of (inverse_map m) x = None \<longrightarrow> decode_cell m x = x"
    by (simp add: decode_cell_pass_through)
  moreover have "\<forall>Z e. inverse_transform self' Z = Inl e \<longrightarrow> e = SchemaError \<and> \<not> schema_ok self' Z"
    using inverse_transform_InlD [OF fitted] by blast
  ultimately show ?thesis using cell by blast
qed

lemma fitted_colour_count_ignore:
  "fit id select_variables (new_encoder ''count'' ''ignore'') colour_training =
     (\<lparr>encoding_method = ''count'', variables = None, ignore_format = False, errors = ''ignore'',
       variables' = Some [''colour''], feature_names_in' = Some [''colour''],
       n_features_in' = Some 1,
       encoder_dict' = Some [(''colour'',
           \<lparr>entries = [(Str ''green'', Num 5), (Str ''blue'', Num 3), (Str ''red'', Num 2)],
            default_factory = None\<rparr>)]\<rparr>, None)"
  unfolding fit_colour_count by (simp add: new_encoder_def)

theorem inverse_transform_round_trip_witness:
  "decode_cell \<lparr>entries = [(Str ''green'', Num 5), (Str ''blue'', Num 3), (Str ''red'', Num 2)],
                default_factory = None\<rparr>
     (encode_cell \<lparr>entries = [(Str ''green'', Num 5), (Str ''blue'', Num 3), (Str ''red'', Num 2)],
                   default_factory = None\<rparr> (Str ''blue'')) = Str ''blue''
   \<and> transform (fst (fit id select_variables (new_encoder ''count'' ''ignore'') colour_training))
        colour_new = Inr [(''colour'', Object [Num 3, NaN])]
   \<and> inverse_transform (fst (fit id select_variables (new_encoder ''count'' ''ignore'') colour_training))
        [(''colour'', Object [Num 3, NaN])] = Inr [(''colour'', Object [Str ''blue'', NaN])]"
proof -
  let ?f = "fit id select_variables (new_encoder ''count'' ''ignore'') colour_training"
  let ?m = "\<lparr>entries = [(Str ''green'', Num 5), (Str ''blue'', Num 3), (Str ''red'', Num 2)],
            default_factory = None\<rparr>"
  let ?s = "Object [Str ''blue'', Str ''blue'', Str ''blue'', Str ''red'', Str ''red'',
                          Str ''green'', Str ''green'', Str ''green'', Str ''green'', Str ''green'']"
  have f: "?f = (fst ?f, None)" by (simp add: fit_colour_count)
  have m: "map_for (fst ?f) ''colour'' = Some ?m"
    unfolding fitted_colour_count_ignore by (simp add: map_for_def)
  have s: "map_of colour_training ''colour'' = Some ?s" by (simp add: colour_training_def)
  have c: "Str ''blue'' \<in> set (non_missing ?s)" by (simp add: non_missing_def)
  have inj: "distinct (map snd (entries ?m))" by simp
  from inverse_transform_round_trip [OF f m s c inj]
  have "decode_cell ?m (encode_cell ?m (Str ''blue'')) = Str ''blue''" by simp
  moreover have "transform (fst ?f) colour_new = Inr [(''colour'', Object [Num 3, NaN])]"
    unfolding fitted_colour_count_ignore by (simp add: transform_eval)
  moreover have "inverse_transform (fst ?f) [(''colour'', Object [Num 3, NaN])]
                   = Inr [(''colour'', Object [Str ''blue'', NaN])]"
    unfolding fitted_colour_count_ignore
    by (simp add: inverse_transform_def is_fitted_def schema_ok_def map_columns_def map_for_def
          decode_cell_def inverse_map_def)
  ultimately show ?thesis by simp
qed

section \<open>Before and after fit\<close>


lemma learn_encoding_maps_returns:
  "list_all (\<lambda>v. map_of X v \<noteq> None) vars \<Longrightarrow>
     \<exists>d. learn_encoding_maps rnd method dct_init X vars d0 = (d, None)"
  by (induction vars arbitrary: d0) auto





section \<open>Construction and the result of fit\<close>

text \<open>
  C9. Constructing the encoder with an \<^verbatim>\<open>encoding_method\<close> other than \<^verbatim>\<open>'count'\<close> and
  \<^verbatim>\<open>'frequency'\<close>, or with \<^verbatim>\<open>errors\<close> other than \<^verbatim>\<open>'ignore'\<close>, \<^verbatim>\<open>'raise'\<close> and \<^verbatim>\<open>'encode'\<close>,
  fails with \<open>ConfigError\<close> and yields no encoder; no dataset is involved. With valid
  values the encoder is built, holding them and no Fitted State.
\<close>

theorem init_validates_configuration:
  "init m vs ig p =
     (if m \<in> set [''count'', ''frequency''] \<and> p \<in> set [''ignore'', ''raise'', ''encode'']
      then Inr \<lparr>encoding_method = m, variables = vs, ignore_format = ig, errors = p,
                variables' = None, feature_names_in' = None, n_features_in' = None,
                encoder_dict' = None\<rparr>
      else Inl ConfigError)"
  by (simp add: init_def check_parameter_errors_def mixin_init_def)

theorem init_validates_configuration_witness:
  "init ''mean'' None False ''ignore'' = Inl ConfigError
   \<and> init ''count'' None False ''zero'' = Inl ConfigError
   \<and> init ''frequency'' None False ''encode'' = Inr (new_encoder ''frequency'' ''encode'')"
  by (simp add: init_validates_configuration new_encoder_def)

lemma fit_succeeds:
  assumes "sel X (variables self) (ignore_format self) = Some vars"
    and "list_all (\<lambda>v. map_of X v \<noteq> None) vars"
    and "errors self \<noteq> ''encode''"
  shows "\<exists>self'. fit rnd sel self X = (self', None)"
proof -
  from learn_encoding_maps_returns [OF assms(2)] obtain d where
    "learn_encoding_maps rnd (encoding_method self)
       (if errors self = ''encode'' then Some (Num 0) else None) X vars [] = (d, None)"
    by blast
  with assms(1,3) show ?thesis
    by (simp add: fit_unfold check_encoding_dictionary_def)
qed

text \<open>
  C10. When \<^verbatim>\<open>fit\<close> returns, what it returns is the encoder it was called on: the same
  configuration, with the four attributes of the Fitted State assigned, so that
  \<^verbatim>\<open>fit(X).transform(Y)\<close> is \<^verbatim>\<open>transform(Y)\<close> on that encoder and never a \<open>StateError\<close>.
\<close>

theorem fit_returns_self:
  assumes "fit rnd sel self X = (self', None)"
  shows "(\<exists>vars d. sel X (variables self) (ignore_format self) = Some vars
            \<and> self' = self\<lparr>variables' := Some vars, feature_names_in' := Some (map fst X),
                            n_features_in' := Some (length X), encoder_dict' := Some d\<rparr>)
       \<and> encoding_method self' = encoding_method self \<and> variables self' = variables self
       \<and> ignore_format self' = ignore_format self \<and> errors self' = errors self
       \<and> is_fitted self'
       \<and> fit_then_transform rnd sel self X Y = transform self' Y
       \<and> transform self' Y \<noteq> Inl StateError"
proof -
  from assms obtain vars d where
    sel: "sel X (variables self) (ignore_format self) = Some vars"
    and self': "self' = self\<lparr>variables' := Some vars, feature_names_in' := Some (map fst X),
                            n_features_in' := Some (length X), encoder_dict' := Some d\<rparr>"
    by (rule fit_success)
  from self' have fitted: "is_fitted self'" by (simp add: is_fitted_def)
  then have "transform self' Y \<noteq> Inl StateError"
    by (simp add: transform_def)
  moreover from assms have "fit_then_transform rnd sel self X Y = transform self' Y"
    by (simp add: fit_then_transform_def)
  moreover from self' have "encoding_method self' = encoding_method self"
    "variables self' = variables self" "ignore_format self' = ignore_format self"
    "errors self' = errors self" by simp_all
  ultimately show ?thesis using sel self' fitted by blast
qed

theorem fit_returns_self_witness:
  "fit id select_variables (new_encoder ''count'' ''ignore'') colour_training
     = ((new_encoder ''count'' ''ignore'')
          \<lparr>variables' := Some [''colour''], feature_names_in' := Some [''colour''],
           n_features_in' := Some 1,
           encoder_dict' := Some [(''colour'',
             \<lparr>entries = [(Str ''green'', Num 5), (Str ''blue'', Num 3), (Str ''red'', Num 2)],
              default_factory = None\<rparr>)]\<rparr>, None)
   \<and> is_fitted (fst (fit id select_variables (new_encoder ''count'' ''ignore'') colour_training))
   \<and> errors (fst (fit id select_variables (new_encoder ''count'' ''ignore'') colour_training))
       = ''ignore''
   \<and> fit_then_transform id select_variables (new_encoder ''count'' ''ignore'') colour_training
        colour_new
       = transform (fst (fit id select_variables (new_encoder ''count'' ''ignore'') colour_training))
           colour_new"
proof -
  let ?f = "fit id select_variables (new_encoder ''count'' ''ignore'') colour_training"
  have f: "?f = (fst ?f, None)" by (simp add: fit_colour_count)
  have e: "errors (new_encoder ''count'' ''ignore'') = ''ignore''" by (simp add: new_encoder_def)
  from fit_returns_self [OF f, of colour_new] e
  have "is_fitted (fst ?f)" and "errors (fst ?f) = ''ignore''"
    and "fit_then_transform id select_variables (new_encoder ''count'' ''ignore'') colour_training
           colour_new = transform (fst ?f) colour_new"
    by simp_all
  moreover have "?f = ((new_encoder ''count'' ''ignore'')
          \<lparr>variables' := Some [''colour''], feature_names_in' := Some [''colour''],
           n_features_in' := Some 1,
           encoder_dict' := Some [(''colour'',
             \<lparr>entries = [(Str ''green'', Num 5), (Str ''blue'', Num 3), (Str ''red'', Num 2)],
              default_factory = None\<rparr>)]\<rparr>, None)"
    by (simp add: fit_colour_count)
  ultimately show ?thesis by simp
qed

end
